theory Spec2Isabelle
  imports Main "HOL-Library.Multiset"
begin

section \<open>Python values and dictionaries\<close>

text \<open>
  The module \<^verbatim>\<open>protocol_command.py\<close> defines one class, \<^verbatim>\<open>ProtocolCommand\<close>. Its two
  version maps are lists of pairs \<open>(object_id, version)\<close>; an object id is a string and a
  version is an opaque token that Python can hash and compare with \<^verbatim>\<open>==\<close>. The tokens are
  the type variable \<open>'v\<close>, compared with HOL's equality; the party identities
  (\<^verbatim>\<open>LibraAddress\<close>) are the type variable \<open>'a\<close>, compared with HOL's equality as well.

  A JSON data dictionary maps strings to Python values. The methods look at such a value
  in two ways only: they call \<^verbatim>\<open>.items()\<close> on it, which a \<^verbatim>\<open>dict\<close> alone has, or they hand
  it to the address codec.
\<close>

datatype 'v pyval =
    PNone
  | PInt int
  | PStr string
  | PList "'v list"
  | PDict "(string \<times> 'v) list"

text \<open>
  A Python \<^verbatim>\<open>dict\<close> keeps its keys in insertion order and holds each key once. It is an
  association list; the operations below are the ones the module uses.
\<close>

type_synonym ('k, 'x) dict = "('k \<times> 'x) list"

text \<open>\<^verbatim>\<open>d[k] = x\<close>: a key already present keeps its place and takes the new value, a new key
  goes to the end.\<close>

fun dict_setitem :: "('k, 'x) dict \<Rightarrow> 'k \<Rightarrow> 'x \<Rightarrow> ('k, 'x) dict" where
  "dict_setitem [] k x = [(k, x)]"
| "dict_setitem ((k', x') # d) k x =
     (if k' = k then (k', x) # d else (k', x') # dict_setitem d k x)"

text \<open>\<^verbatim>\<open>d.update(e)\<close>: the items of \<open>e\<close> are stored one after the other.\<close>

definition dict_update :: "('k, 'x) dict \<Rightarrow> ('k, 'x) dict \<Rightarrow> ('k, 'x) dict" where
  "dict_update d e = foldl (\<lambda>acc (k, x). dict_setitem acc k x) d e"

text \<open>\<^verbatim>\<open>dict(pairs)\<close>: an empty dictionary updated with the pairs, from the first to the last.\<close>

definition dict_of_pairs :: "('k \<times> 'x) list \<Rightarrow> ('k, 'x) dict" where
  "dict_of_pairs pairs = dict_update [] pairs"

text \<open>\<^verbatim>\<open>k in d\<close>.\<close>

definition dict_contains :: "('k, 'x) dict \<Rightarrow> 'k \<Rightarrow> bool" where
  "dict_contains d k = (map_of d k \<noteq> None)"

section \<open>Errors\<close>

text \<open>
  The exceptions the module can raise. \<open>KeyError\<close> carries the missing key.
  \<open>AddressDecodeError\<close> stands for the exception of \<^verbatim>\<open>LibraAddress.from_encoded_str\<close>,
  whatever its class: \<^verbatim>\<open>from_json_data_dict\<close> has no handler, so it reaches the caller.
\<close>

datatype error =
    AssertionError
  | KeyError string
  | AttributeError
  | NotImplementedError
  | AddressDecodeError

text \<open>
  The specification names its errors by kind (section 7): a reassigned origin is a
  \<open>StateConflict\<close>, input that cannot be deserialised is \<open>MalformedData\<close>, an abstract
  method that was not overridden is \<open>NotImplemented\<close>, and a version that the command does
  not create is \<open>UnknownVersion\<close>. The function below reads each exception of the module
  as the kind the specification describes for it; no exception of the module is of kind
  \<open>UnknownVersion\<close>.
\<close>

datatype error_kind = StateConflict | MalformedData | UnknownVersion | NotImplemented

fun kind_of :: "error \<Rightarrow> error_kind" where
  "kind_of AssertionError = StateConflict"
| "kind_of (KeyError k) = MalformedData"
| "kind_of AttributeError = MalformedData"
| "kind_of AddressDecodeError = MalformedData"
| "kind_of NotImplementedError = NotImplemented"

text \<open>\<^verbatim>\<open>d[k]\<close> raises \<open>KeyError\<close> for a missing key.\<close>

definition dict_getitem :: "(string, 'x) dict \<Rightarrow> string \<Rightarrow> error + 'x" where
  "dict_getitem d k = (case map_of d k of None \<Rightarrow> Inl (KeyError k) | Some x \<Rightarrow> Inr x)"

text \<open>\<^verbatim>\<open>x.items()\<close>: only a \<^verbatim>\<open>dict\<close> has the attribute.\<close>

fun items :: "'v pyval \<Rightarrow> error + (string \<times> 'v) list" where
  "items (PDict d) = Inr d"
| "items x = Inl AttributeError"

section \<open>The command\<close>

text \<open>Modelled from the spec: \<^verbatim>\<open>JSONFlag\<close> is defined in \<^verbatim>\<open>utils.py\<close>; the specification
  gives it the two values \<open>NET\<close> and \<open>STORE\<close>.\<close>

datatype JSONFlag = NET | STORE

record ('a, 'v) ProtocolCommand =
  reads_version_map :: "(string \<times> 'v) list"
  writes_version_map :: "(string \<times> 'v) list"
  origin :: "'a option"

text \<open>\<^verbatim>\<open>__init__\<close>.\<close>

definition ProtocolCommand_init :: "('a, 'v) ProtocolCommand" where
  "ProtocolCommand_init = \<lparr>reads_version_map = [], writes_version_map = [], origin = None\<rparr>"

text \<open>\<^verbatim>\<open>__eq__\<close>.\<close>

definition ProtocolCommand_eq ::
  "('a, 'v) ProtocolCommand \<Rightarrow> ('a, 'v) ProtocolCommand \<Rightarrow> bool" where
  "ProtocolCommand_eq self other =
     (reads_version_map self = reads_version_map other \<and>
      writes_version_map self = writes_version_map other \<and>
      origin self = origin other)"

text \<open>
  A method that assigns to a field of \<^verbatim>\<open>self\<close>, or of which a claim says that it does
  not, takes the command and returns its result together with the command after the call.
  \<^verbatim>\<open>set_origin\<close> takes Python's \<^verbatim>\<open>None\<close> as \<open>None\<close>. When the assertion fails nothing has
  been assigned.
\<close>

definition set_origin ::
  "'a option \<Rightarrow> ('a, 'v) ProtocolCommand \<Rightarrow> (error + unit) \<times> ('a, 'v) ProtocolCommand" where
  "set_origin new_origin self =
     (if origin self = None \<or> new_origin = origin self
      then (Inr (), self\<lparr>origin := new_origin\<rparr>)
      else (Inl AssertionError, self))"

definition get_origin :: "('a, 'v) ProtocolCommand \<Rightarrow> 'a option" where
  "get_origin self = origin self"

definition get_dependencies :: "('a, 'v) ProtocolCommand \<Rightarrow> 'v set" where
  "get_dependencies self = set (map (\<lambda>(_, v). v) (reads_version_map self))"

definition get_new_object_versions :: "('a, 'v) ProtocolCommand \<Rightarrow> 'v set" where
  "get_new_object_versions self = set (map (\<lambda>(_, v). v) (writes_version_map self))"

text \<open>The base class leaves \<^verbatim>\<open>get_object\<close> abstract: it raises whatever its arguments.\<close>

definition get_object :: "('a, 'v) ProtocolCommand \<Rightarrow> 'v \<Rightarrow> 'd \<Rightarrow> error + 'o" where
  "get_object self version_number dependencies = Inl NotImplementedError"

text \<open>
  \<^verbatim>\<open>get_json_data_dict\<close> calls two methods that are defined in other modules, taken here as
  parameters:
  \<^item> \<open>as_str\<close>, the string encoding of a \<^verbatim>\<open>LibraAddress\<close>;
  \<^item> \<open>add_object_type\<close> of \<^verbatim>\<open>JSONSerializable\<close>, which gets the command and the data
    dictionary and changes the dictionary in place; the parameter returns the dictionary
    as the call leaves it.
\<close>

definition get_json_data_dict ::
  "('a \<Rightarrow> string) \<Rightarrow>
   (('a, 'v) ProtocolCommand \<Rightarrow> (string, 'v pyval) dict \<Rightarrow> (string, 'v pyval) dict) \<Rightarrow>
   JSONFlag \<Rightarrow> ('a, 'v) ProtocolCommand \<Rightarrow>
   (string, 'v pyval) dict \<times> ('a, 'v) ProtocolCommand" where
  "get_json_data_dict as_str add_object_type flag self =
     (let data_dict =
            [(''_reads'', PDict (dict_of_pairs (reads_version_map self))),
             (''_writes'', PDict (dict_of_pairs (writes_version_map self)))];
          data_dict =
            (if flag = STORE then
               (case origin self of
                  None \<Rightarrow> data_dict
                | Some a \<Rightarrow> dict_update data_dict [(''_origin'', PStr (as_str a))])
             else data_dict);
          data_dict = add_object_type self data_dict
      in (data_dict, self))"

text \<open>
  The same method with the two calls as Python allows them. A call may change the object
  it is made on and may read and change state outside the command (module globals, the
  objects behind the address); \<open>'w\<close> is that state. \<open>as_str\<close> returns the encoding and the
  address after the call, which stays the origin of the command; \<open>add_object_type\<close>
  returns the dictionary and the command after the call. The method itself assigns to
  nothing but the local \<^verbatim>\<open>data_dict\<close>.
\<close>

definition get_json_data_dict_effects ::
  "('a \<Rightarrow> 'w \<Rightarrow> (string \<times> 'a) \<times> 'w) \<Rightarrow>
   (('a, 'v) ProtocolCommand \<Rightarrow> (string, 'v pyval) dict \<Rightarrow> 'w \<Rightarrow>
      ((string, 'v pyval) dict \<times> ('a, 'v) ProtocolCommand) \<times> 'w) \<Rightarrow>
   JSONFlag \<Rightarrow> ('a, 'v) ProtocolCommand \<Rightarrow> 'w \<Rightarrow>
   ((string, 'v pyval) dict \<times> ('a, 'v) ProtocolCommand) \<times> 'w" where
  "get_json_data_dict_effects as_str add_object_type flag self w =
     (let data_dict =
            [(''_reads'', PDict (dict_of_pairs (reads_version_map self))),
             (''_writes'', PDict (dict_of_pairs (writes_version_map self)))];
          ((data_dict, self), w) =
            (if flag = STORE then
               (case origin self of
                  None \<Rightarrow> ((data_dict, self), w)
                | Some a \<Rightarrow>
                    (let ((s, a), w) = as_str a w
                     in ((dict_update data_dict [(''_origin'', PStr s)],
                          self\<lparr>origin := Some a\<rparr>), w)))
             else ((data_dict, self), w))
      in add_object_type self data_dict w)"

text \<open>
  \<^verbatim>\<open>from_json_data_dict\<close> builds a new command. \<open>from_encoded_str\<close> is the decoder of
  \<^verbatim>\<open>LibraAddress\<close>, a parameter: it gets the value stored under \<^verbatim>\<open>"_origin"\<close> and returns
  \<open>None\<close> when it raises. The statements run in the order of the source, so the first
  failure is the one that is raised.
\<close>

definition from_json_data_dict ::
  "('v pyval \<Rightarrow> 'a option) \<Rightarrow> (string, 'v pyval) dict \<Rightarrow> JSONFlag \<Rightarrow>
   error + ('a, 'v) ProtocolCommand" where
  "from_json_data_dict from_encoded_str data flag =
     (case dict_getitem data ''_reads'' of
        Inl e \<Rightarrow> Inl e
      | Inr r \<Rightarrow>
     (case items r of
        Inl e \<Rightarrow> Inl e
      | Inr r_items \<Rightarrow>
     (let self = ProtocolCommand_init\<lparr>reads_version_map := map (\<lambda>(k, v). (k, v)) r_items\<rparr> in
     (case dict_getitem data ''_writes'' of
        Inl e \<Rightarrow> Inl e
      | Inr w \<Rightarrow>
     (case items w of
        Inl e \<Rightarrow> Inl e
      | Inr w_items \<Rightarrow>
     (let self = self\<lparr>writes_version_map := map (\<lambda>(k, v). (k, v)) w_items\<rparr> in
      if flag = STORE then
        (if dict_contains data ''_origin'' then
           (case dict_getitem data ''_origin'' of
              Inl e \<Rightarrow> Inl e
            | Inr s \<Rightarrow>
           (case from_encoded_str s of
              None \<Rightarrow> Inl AddressDecodeError
            | Some a \<Rightarrow> Inr (self\<lparr>origin := Some a\<rparr>)))
         else Inr self)
      else Inr self))))))"

section \<open>A concrete instance\<close>

text \<open>
  The theorems below hold for every codec and every \<open>add_object_type\<close> that meets the
  hypotheses they state. They are evaluated on this instance: an address is a non-empty
  string that encodes as itself, a version is an integer, \<open>add_object_type\<close> stores the
  name of the class under a key of its own, and the command is the one of the
  specification's end-to-end examples, with origin \<open>A\<close>.
\<close>

definition example_as_str :: "string \<Rightarrow> string" where
  "example_as_str a = a"

fun example_from_encoded_str :: "int pyval \<Rightarrow> string option" where
  "example_from_encoded_str (PStr s) = (if s = [] then None else Some s)"
| "example_from_encoded_str x = None"

definition example_add_object_type ::
  "(string, int) ProtocolCommand \<Rightarrow> (string, int pyval) dict \<Rightarrow> (string, int pyval) dict" where
  "example_add_object_type self value_dict =
     dict_setitem value_dict ''_ObjectType'' (PStr ''ProtocolCommand'')"

definition example_command :: "(string, int) ProtocolCommand" where
  "example_command =
     \<lparr>reads_version_map = [(''obj1'', 5)], writes_version_map = [(''obj2'', 1)],
      origin = Some ''A''\<rparr>"

text \<open>
  For the method with effects: the state outside the command is a counter of the calls
  made into the other modules; both calls advance it and neither reads it.
\<close>

definition example_as_str_counting :: "string \<Rightarrow> nat \<Rightarrow> (string \<times> string) \<times> nat" where
  "example_as_str_counting a calls = ((a, a), Suc calls)"

definition example_add_object_type_counting ::
  "(string, int) ProtocolCommand \<Rightarrow> (string, int pyval) dict \<Rightarrow> nat \<Rightarrow>
   ((string, int pyval) dict \<times> (string, int) ProtocolCommand) \<times> nat" where
  "example_add_object_type_counting self value_dict calls =
     ((dict_setitem value_dict ''_ObjectType'' (PStr ''ProtocolCommand''), self), Suc calls)"

section \<open>Dictionary lemmas\<close>

lemma map_of_dict_setitem: "map_of (dict_setitem d k x) = (map_of d)(k \<mapsto> x)"
  by (induction d) (auto simp: fun_eq_iff)

lemma keys_dict_setitem:
  "map fst (dict_setitem d k x) = (if k \<in> set (map fst d) then map fst d else map fst d @ [k])"
  by (induction d) (auto simp: rev_image_eqI)

lemma dict_setitem_fresh: "k \<notin> fst ` set d \<Longrightarrow> dict_setitem d k x = d @ [(k, x)]"
  by (induction d) auto

lemma dict_update_fresh:
  "distinct (map fst (d @ e)) \<Longrightarrow> dict_update d e = d @ e"
proof (induction e arbitrary: d)
  case Nil
  then show ?case by (simp add: dict_update_def)
next
  case (Cons p e)
  obtain k x where p: "p = (k, x)" by (cases p)
  from Cons.prems p have fresh: "k \<notin> fst ` set d" by auto
  from Cons.prems p have "distinct (map fst ((d @ [(k, x)]) @ e))" by auto
  then have "dict_update (d @ [(k, x)]) e = (d @ [(k, x)]) @ e" by (rule Cons.IH)
  with fresh p show ?case by (simp add: dict_update_def dict_setitem_fresh)
qed

lemma dict_of_pairs_distinct: "distinct (map fst pairs) \<Longrightarrow> dict_of_pairs pairs = pairs"
  using dict_update_fresh [of "[]" pairs] by (simp add: dict_of_pairs_def)

lemma distinct_dict_update:
  "distinct (map fst d) \<Longrightarrow> distinct (map fst (dict_update d e))"
proof (induction e arbitrary: d)
  case Nil
  then show ?case by (simp add: dict_update_def)
next
  case (Cons p e)
  obtain k x where p: "p = (k, x)" by (cases p)
  from Cons.prems have "distinct (map fst (dict_setitem d k x))"
    by (simp add: keys_dict_setitem)
  then have "distinct (map fst (dict_update (dict_setitem d k x) e))" by (rule Cons.IH)
  with p show ?case by (simp add: dict_update_def)
qed

lemma distinct_dict_of_pairs: "distinct (map fst (dict_of_pairs pairs))"
  by (simp add: dict_of_pairs_def distinct_dict_update)

lemma map_of_dict_update: "map_of (dict_update d e) = map_of d ++ map_of (rev e)"
proof (induction e arbitrary: d)
  case Nil
  then show ?case by (simp add: dict_update_def)
next
  case (Cons p e)
  obtain k x where p: "p = (k, x)" by (cases p)
  have "map_of (dict_update (dict_setitem d k x) e) = map_of (dict_setitem d k x) ++ map_of (rev e)"
    by (rule Cons.IH)
  with p show ?case
    by (simp add: dict_update_def map_of_dict_setitem fun_eq_iff map_add_def split: option.splits)
qed

lemma map_of_dict_of_pairs: "map_of (dict_of_pairs pairs) = map_of (rev pairs)"
  by (simp add: dict_of_pairs_def map_of_dict_update)

lemma keys_dict_update: "fst ` set (dict_update d e) = fst ` set d \<union> fst ` set e"
proof -
  have "dom (map_of (dict_update d e)) = dom (map_of d) \<union> dom (map_of (rev e))"
    by (simp add: map_of_dict_update Un_commute)
  then show ?thesis by (simp add: dom_map_of_conv_image_fst)
qed

lemma keys_dict_of_pairs: "fst ` set (dict_of_pairs pairs) = fst ` set pairs"
  by (simp add: dict_of_pairs_def keys_dict_update)

lemma length_dict_of_pairs: "length (dict_of_pairs pairs) = card (fst ` set pairs)"
proof -
  have "length (dict_of_pairs pairs) = length (map fst (dict_of_pairs pairs))" by simp
  also have "\<dots> = card (set (map fst (dict_of_pairs pairs)))"
    by (rule distinct_card [symmetric]) (rule distinct_dict_of_pairs)
  also have "\<dots> = card (fst ` set pairs)" by (simp add: keys_dict_of_pairs)
  finally show ?thesis .
qed

lemma length_dict_of_pairs_less:
  assumes "\<not> distinct (map fst pairs)"
  shows "length (dict_of_pairs pairs) < length pairs"
proof -
  have "card (set (map fst pairs)) \<le> length (map fst pairs)" by (rule card_length)
  moreover from assms have "card (set (map fst pairs)) \<noteq> length (map fst pairs)"
    using card_distinct by blast
  ultimately show ?thesis by (simp add: length_dict_of_pairs)
qed

lemma distinct_keys_entries:
  "distinct (map fst d) \<Longrightarrow> map_of d k = Some v \<Longrightarrow> filter (\<lambda>p. fst p = k) d = [(k, v)]"
proof (induction d)
  case Nil
  then show ?case by simp
next
  case (Cons p d)
  show ?case
  proof (cases "fst p = k")
    case True
    with Cons.prems have "k \<notin> fst ` set d" by simp
    then have "filter (\<lambda>p. fst p = k) d = []"
      by (auto simp: filter_empty_conv)
    with True Cons.prems show ?thesis by (cases p) simp
  next
    case False
    with Cons show ?thesis by simp
  qed
qed

lemma dict_of_pairs_entries:
  "map_of (dict_of_pairs pairs) k = Some v \<Longrightarrow>
   filter (\<lambda>p. fst p = k) (dict_of_pairs pairs) = [(k, v)]"
  by (rule distinct_keys_entries [OF distinct_dict_of_pairs])

section \<open>What the two conversions compute\<close>

lemma from_json_data_dict_maps:
  assumes "map_of data ''_reads'' = Some (PDict r)"
    and "map_of data ''_writes'' = Some (PDict w)"
  shows "from_json_data_dict from_encoded_str data flag =
     (if flag = STORE then
        (case map_of data ''_origin'' of
           None \<Rightarrow> Inr \<lparr>reads_version_map = r, writes_version_map = w, origin = None\<rparr>
         | Some s \<Rightarrow>
            (case from_encoded_str s of
               None \<Rightarrow> Inl AddressDecodeError
             | Some a \<Rightarrow> Inr \<lparr>reads_version_map = r, writes_version_map = w, origin = Some a\<rparr>))
      else Inr \<lparr>reads_version_map = r, writes_version_map = w, origin = None\<rparr>)"
  using assms
  by (simp add: from_json_data_dict_def dict_getitem_def dict_contains_def
      ProtocolCommand_init_def split: option.splits)

lemma from_json_data_dict_bad_reads:
  assumes "\<not> (\<exists>r. map_of data ''_reads'' = Some (PDict r))"
  shows "from_json_data_dict from_encoded_str data flag =
     (if map_of data ''_reads'' = None then Inl (KeyError ''_reads'') else Inl AttributeError)"
proof (cases "map_of data ''_reads''")
  case None
  then show ?thesis by (simp add: from_json_data_dict_def dict_getitem_def)
next
  case (Some x)
  with assms show ?thesis
    by (cases x) (simp_all add: from_json_data_dict_def dict_getitem_def)
qed

lemma from_json_data_dict_bad_writes:
  assumes "map_of data ''_reads'' = Some (PDict r)"
    and "\<not> (\<exists>w. map_of data ''_writes'' = Some (PDict w))"
  shows "from_json_data_dict from_encoded_str data flag =
     (if map_of data ''_writes'' = None then Inl (KeyError ''_writes'') else Inl AttributeError)"
proof (cases "map_of data ''_writes''")
  case None
  with assms(1) show ?thesis by (simp add: from_json_data_dict_def dict_getitem_def)
next
  case (Some x)
  with assms show ?thesis
    by (cases x) (simp_all add: from_json_data_dict_def dict_getitem_def)
qed

lemma get_json_data_dict_reads:
  assumes "\<And>d. map_of (add_object_type c d) ''_reads'' = map_of d ''_reads''"
  shows "map_of (fst (get_json_data_dict as_str add_object_type flag c)) ''_reads'' =
     Some (PDict (dict_of_pairs (reads_version_map c)))"
  by (simp add: get_json_data_dict_def dict_update_def Let_def assms split: option.splits)

lemma get_json_data_dict_writes:
  assumes "\<And>d. map_of (add_object_type c d) ''_writes'' = map_of d ''_writes''"
  shows "map_of (fst (get_json_data_dict as_str add_object_type flag c)) ''_writes'' =
     Some (PDict (dict_of_pairs (writes_version_map c)))"
  by (simp add: get_json_data_dict_def dict_update_def Let_def assms split: option.splits)

lemma get_json_data_dict_origin:
  assumes "\<And>d. map_of (add_object_type c d) ''_origin'' = map_of d ''_origin''"
  shows "map_of (fst (get_json_data_dict as_str add_object_type flag c)) ''_origin'' =
     (if flag = STORE then map_option (\<lambda>a. PStr (as_str a)) (origin c) else None)"
  by (simp add: get_json_data_dict_def dict_update_def Let_def assms split: option.splits)

lemma example_add_object_type_keeps:
  "k \<noteq> ''_ObjectType'' \<Longrightarrow> map_of (example_add_object_type c d) k = map_of d k"
  by (simp add: example_add_object_type_def map_of_dict_setitem)

section \<open>Serialisation round trip\<close>

text \<open>
  Claim C1. Take a command whose reads hold each object id once and whose writes hold
  each object id once, with its origin set or not. Serialise it in \<open>STORE\<close> mode and
  deserialise the result in \<open>STORE\<close> mode: the call returns a command, and \<^verbatim>\<open>__eq__\<close>
  finds it equal to the first one (same reads, same writes, same origin).

  The two methods of other modules enter through their contracts: the decoder gives back
  the address that \<open>as_str\<close> encoded, and \<open>add_object_type\<close> leaves the entries
  \<^verbatim>\<open>"_reads"\<close>, \<^verbatim>\<open>"_writes"\<close> and \<^verbatim>\<open>"_origin"\<close> as it finds them.
\<close>

theorem round_trip_store:
  assumes reads: "distinct (map fst (reads_version_map c))"
    and writes: "distinct (map fst (writes_version_map c))"
    and codec: "\<And>a. origin c = Some a \<Longrightarrow> from_encoded_str (PStr (as_str a)) = Some a"
    and keep: "\<And>d k. k \<in> {''_reads'', ''_writes'', ''_origin''} \<Longrightarrow>
                 map_of (add_object_type c d) k = map_of d k"
  shows "\<exists>c'. from_json_data_dict from_encoded_str
            (fst (get_json_data_dict as_str add_object_type STORE c)) STORE = Inr c' \<and>
          ProtocolCommand_eq c' c"
proof -
  let ?data = "fst (get_json_data_dict as_str add_object_type STORE c)"
  have r: "map_of ?data ''_reads'' = Some (PDict (reads_version_map c))"
    using get_json_data_dict_reads [of add_object_type c as_str STORE] keep reads
    by (simp add: dict_of_pairs_distinct)
  have w: "map_of ?data ''_writes'' = Some (PDict (writes_version_map c))"
    using get_json_data_dict_writes [of add_object_type c as_str STORE] keep writes
    by (simp add: dict_of_pairs_distinct)
  have o: "map_of ?data ''_origin'' = map_option (\<lambda>a. PStr (as_str a)) (origin c)"
    using get_json_data_dict_origin [of add_object_type c as_str STORE] keep by simp
  have "from_json_data_dict from_encoded_str ?data STORE = Inr c"
  proof (cases "origin c")
    case None
    with o show ?thesis by (simp add: from_json_data_dict_maps [OF r w])
  next
    case (Some a)
    with o codec [OF Some] show ?thesis by (simp add: from_json_data_dict_maps [OF r w])
  qed
  then show ?thesis by (simp add: ProtocolCommand_eq_def)
qed

theorem round_trip_store_witness:
  "distinct (map fst (reads_version_map example_command)) \<and>
   distinct (map fst (writes_version_map example_command)) \<and>
   example_from_encoded_str (PStr (example_as_str ''A'')) = Some ''A'' \<and>
   (\<exists>c'. from_json_data_dict example_from_encoded_str
      (fst (get_json_data_dict example_as_str example_add_object_type STORE example_command))
      STORE = Inr c' \<and> ProtocolCommand_eq c' example_command)"
proof -
  have h1: "distinct (map fst (reads_version_map example_command))"
    by (simp add: example_command_def)
  have h2: "distinct (map fst (writes_version_map example_command))"
    by (simp add: example_command_def)
  have h3: "\<And>a. origin example_command = Some a \<Longrightarrow>
      example_from_encoded_str (PStr (example_as_str a)) = Some a"
    by (simp add: example_command_def example_as_str_def)
  have h4: "\<And>d k. k \<in> {''_reads'', ''_writes'', ''_origin''} \<Longrightarrow>
      map_of (example_add_object_type example_command d) k = map_of d k"
    by (auto simp: example_add_object_type_keeps)
  from round_trip_store [of example_command example_from_encoded_str example_as_str
      example_add_object_type, OF h1 h2 h3 h4] h1 h2
  show ?thesis by (simp add: example_as_str_def)
qed

section \<open>The origin field in the two modes\<close>

text \<open>
  Claim C2. The mapping that \<^verbatim>\<open>get_json_data_dict\<close> returns has the key \<^verbatim>\<open>"_origin"\<close>
  exactly when the mode is \<open>STORE\<close> and the origin of the command is set. For a command
  with origin \<open>a\<close>, the \<open>NET\<close> output has no such key and the \<open>STORE\<close> output binds it to
  the string encoding of \<open>a\<close>. The hypothesis is the contract of \<open>add_object_type\<close>: it
  leaves the entry \<^verbatim>\<open>"_origin"\<close> as it finds it.
\<close>

theorem origin_field_iff_store:
  assumes keep: "\<And>d. map_of (add_object_type c d) ''_origin'' = map_of d ''_origin''"
  shows "(dict_contains (fst (get_json_data_dict as_str add_object_type flag c)) ''_origin'' \<longleftrightarrow>
            flag = STORE \<and> origin c \<noteq> None) \<and>
         (origin c = Some a \<longrightarrow>
            \<not> dict_contains (fst (get_json_data_dict as_str add_object_type NET c)) ''_origin'' \<and>
            map_of (fst (get_json_data_dict as_str add_object_type STORE c)) ''_origin'' =
              Some (PStr (as_str a)))"
  using get_json_data_dict_origin [of add_object_type c as_str, OF keep]
  by (simp add: dict_contains_def)

theorem origin_field_iff_store_witness:
  "origin example_command = Some ''A'' \<and>
   \<not> dict_contains
       (fst (get_json_data_dict example_as_str example_add_object_type NET example_command))
       ''_origin'' \<and>
   dict_contains
       (fst (get_json_data_dict example_as_str example_add_object_type STORE example_command))
       ''_origin'' \<and>
   map_of (fst (get_json_data_dict example_as_str example_add_object_type STORE example_command))
       ''_origin'' = Some (PStr ''A'')"
proof -
  have keep: "\<And>d. map_of (example_add_object_type example_command d) ''_origin'' =
      map_of d ''_origin''"
    by (simp add: example_add_object_type_keeps)
  have o: "origin example_command = Some ''A''"
    by (simp add: example_command_def)
  from origin_field_iff_store [of example_add_object_type example_command example_as_str STORE
      "''A''", OF keep] o
  show ?thesis by (simp add: example_as_str_def)
qed

text \<open>
  Claim C7. Deserialisation in \<open>NET\<close> mode returns no command with an origin: the branch
  that reads \<^verbatim>\<open>"_origin"\<close> is not taken and the decoder is not called, whatever the data
  holds under that key. When \<^verbatim>\<open>"_reads"\<close> and \<^verbatim>\<open>"_writes"\<close> are dictionaries the call
  returns the command with these items and the origin unset; the \<open>STORE\<close> output of a
  command with origin \<open>A\<close>, which holds the key, is such data.
\<close>

theorem net_never_reads_origin:
  "(from_json_data_dict from_encoded_str data NET = Inr c' \<longrightarrow> origin c' = None) \<and>
   (map_of data ''_reads'' = Some (PDict r) \<longrightarrow> map_of data ''_writes'' = Some (PDict w) \<longrightarrow>
      from_json_data_dict from_encoded_str data NET =
        Inr \<lparr>reads_version_map = r, writes_version_map = w, origin = None\<rparr>)"
proof -
  have "from_json_data_dict from_encoded_str data NET = Inr c' \<Longrightarrow> origin c' = None"
    by (auto simp: from_json_data_dict_def ProtocolCommand_init_def Let_def split: sum.splits)
  then show ?thesis by (simp add: from_json_data_dict_maps)
qed

theorem net_never_reads_origin_witness:
  "dict_contains
     (fst (get_json_data_dict example_as_str example_add_object_type STORE example_command))
     ''_origin'' \<and>
   from_json_data_dict example_from_encoded_str
     (fst (get_json_data_dict example_as_str example_add_object_type STORE example_command)) NET =
   Inr (example_command\<lparr>origin := None\<rparr>)"
proof -
  let ?data = "fst (get_json_data_dict example_as_str example_add_object_type STORE example_command)"
  have data: "?data = [(''_reads'', PDict [(''obj1'', 5)]), (''_writes'', PDict [(''obj2'', 1)]),
      (''_origin'', PStr ''A''), (''_ObjectType'', PStr ''ProtocolCommand'')]"
    by (simp add: get_json_data_dict_def example_command_def example_as_str_def
        example_add_object_type_def dict_of_pairs_def dict_update_def)
  have r: "map_of ?data ''_reads'' = Some (PDict [(''obj1'', 5)])"
    and w: "map_of ?data ''_writes'' = Some (PDict [(''obj2'', 1)])"
    and o: "dict_contains ?data ''_origin''"
    unfolding data by (simp_all add: dict_contains_def)
  from net_never_reads_origin [of example_from_encoded_str ?data _ "[(''obj1'', 5)]"
      "[(''obj2'', 1)]"] r w o
  show ?thesis by (simp add: example_command_def)
qed

section \<open>Setting the origin\<close>

text \<open>
  Claim C3. After \<^verbatim>\<open>set_origin(a)\<close> has succeeded on a command, leaving it as \<open>c1\<close>: a
  second \<^verbatim>\<open>set_origin(a)\<close> raises nothing and leaves \<open>c1\<close> as it is, with origin \<open>a\<close>;
  \<^verbatim>\<open>set_origin(b)\<close> with \<open>b\<close> different from \<open>a\<close> fails on the assertion, which is the
  \<open>StateConflict\<close> of the specification, and leaves \<open>c1\<close> as it is.
\<close>

theorem set_origin_twice:
  assumes first: "set_origin (Some a) c = (Inr (), c1)"
    and differ: "a \<noteq> b"
  shows "set_origin (Some a) c1 = (Inr (), c1) \<and> origin c1 = Some a \<and>
         set_origin (Some b) c1 = (Inl AssertionError, c1) \<and>
         kind_of AssertionError = StateConflict"
proof -
  from first have c1: "c1 = c\<lparr>origin := Some a\<rparr>"
    by (simp add: set_origin_def split: if_splits)
  then have o: "origin c1 = Some a" by simp
  from o have same: "set_origin (Some a) c1 = (Inr (), c1)"
    by (simp add: set_origin_def c1)
  from o differ have other: "set_origin (Some b) c1 = (Inl AssertionError, c1)"
    by (simp add: set_origin_def)
  from same o other show ?thesis by simp
qed

theorem set_origin_twice_witness:
  "set_origin (Some ''A'') (example_command\<lparr>origin := None\<rparr>) = (Inr (), example_command) \<and>
   ''A'' \<noteq> ''B'' \<and>
   set_origin (Some ''A'') example_command = (Inr (), example_command) \<and>
   origin example_command = Some ''A'' \<and>
   set_origin (Some ''B'') example_command = (Inl AssertionError, example_command)"
proof -
  have h1: "set_origin (Some ''A'') (example_command\<lparr>origin := None\<rparr>) = (Inr (), example_command)"
    by (simp add: set_origin_def example_command_def)
  have h2: "''A'' \<noteq> ''B''" by simp
  from set_origin_twice [OF h1 h2] h1 h2 show ?thesis by simp
qed

text \<open>
  Claim C10. On a command without origin, \<^verbatim>\<open>set_origin(None)\<close> raises nothing and leaves
  the command as it is, origin unset; a later \<^verbatim>\<open>set_origin(a)\<close> then succeeds and sets the
  origin to \<open>a\<close>. The method does not check that its argument is an address.
\<close>

theorem set_origin_none:
  assumes "origin c = None"
  shows "set_origin None c = (Inr (), c) \<and> origin (snd (set_origin None c)) = None \<and>
         set_origin (Some a) (snd (set_origin None c)) = (Inr (), c\<lparr>origin := Some a\<rparr>)"
  using assms by (simp add: set_origin_def)

theorem set_origin_none_witness:
  "origin (example_command\<lparr>origin := None\<rparr>) = None \<and>
   set_origin None (example_command\<lparr>origin := None\<rparr>) =
     (Inr (), example_command\<lparr>origin := None\<rparr>) \<and>
   set_origin (Some ''A'') (snd (set_origin None (example_command\<lparr>origin := None\<rparr>))) =
     (Inr (), example_command)"
proof -
  have h: "origin (example_command\<lparr>origin := None\<rparr>) = (None :: string option)" by simp
  from set_origin_none [OF h, of "''A''"] show ?thesis
    by (simp add: example_command_def set_origin_def)
qed

section \<open>Dependencies and new versions\<close>

lemma second_of_pair: "(\<lambda>(_, v). v) = snd"
  by (simp add: fun_eq_iff)

text \<open>
  Claim C4. \<^verbatim>\<open>get_dependencies\<close> is the set of the versions in the reads and
  \<^verbatim>\<open>get_new_object_versions\<close> the set of the versions in the writes. Each is empty when
  its list is empty, and two commands whose lists hold the same entries in another order
  have the same sets.
\<close>

theorem dependencies_are_versions:
  "get_dependencies c = snd ` set (reads_version_map c) \<and>
   get_new_object_versions c = snd ` set (writes_version_map c) \<and>
   (reads_version_map c = [] \<longrightarrow> get_dependencies c = {}) \<and>
   (writes_version_map c = [] \<longrightarrow> get_new_object_versions c = {}) \<and>
   (mset (reads_version_map c) = mset (reads_version_map c') \<longrightarrow>
      get_dependencies c = get_dependencies c') \<and>
   (mset (writes_version_map c) = mset (writes_version_map c') \<longrightarrow>
      get_new_object_versions c = get_new_object_versions c')"
proof -
  have "mset (reads_version_map c) = mset (reads_version_map c') \<Longrightarrow>
      set (reads_version_map c) = set (reads_version_map c')"
    by (rule mset_eq_setD)
  moreover have "mset (writes_version_map c) = mset (writes_version_map c') \<Longrightarrow>
      set (writes_version_map c) = set (writes_version_map c')"
    by (rule mset_eq_setD)
  ultimately show ?thesis
    by (simp add: get_dependencies_def get_new_object_versions_def second_of_pair)
qed

theorem dependencies_are_versions_witness:
  "mset [(''x'', 1::int), (''y'', 2)] = mset [(''y'', 2), (''x'', 1)] \<and>
   get_dependencies
     (example_command\<lparr>reads_version_map := [(''x'', 1), (''y'', 2)], writes_version_map := []\<rparr>) =
   get_dependencies
     (example_command\<lparr>reads_version_map := [(''y'', 2), (''x'', 1)], writes_version_map := []\<rparr>) \<and>
   get_dependencies
     (example_command\<lparr>reads_version_map := [(''x'', 1), (''y'', 2)], writes_version_map := []\<rparr>) =
   {1, 2} \<and>
   get_new_object_versions
     (example_command\<lparr>reads_version_map := [(''x'', 1), (''y'', 2)], writes_version_map := []\<rparr>) =
   {}"
proof -
  let ?c = "example_command\<lparr>reads_version_map := [(''x'', 1), (''y'', 2)],
    writes_version_map := []\<rparr>"
  let ?c' = "example_command\<lparr>reads_version_map := [(''y'', 2), (''x'', 1)],
    writes_version_map := []\<rparr>"
  have m: "mset [(''x'', 1::int), (''y'', 2)] = mset [(''y'', 2), (''x'', 1)]"
    by (simp add: add_mset_commute)
  have r: "reads_version_map ?c = [(''x'', 1), (''y'', 2)]"
    and r': "reads_version_map ?c' = [(''y'', 2), (''x'', 1)]"
    and w: "writes_version_map ?c = []"
    by simp_all
  from dependencies_are_versions [of ?c ?c'] m
  show ?thesis unfolding r r' w by auto
qed

section \<open>Input that cannot be deserialised\<close>

text \<open>
  Claim C5. \<^verbatim>\<open>from_json_data_dict\<close> fails, in either mode, when the entry \<^verbatim>\<open>"_reads"\<close> or
  the entry \<^verbatim>\<open>"_writes"\<close> is missing or is not a dictionary, and in \<open>STORE\<close> mode when
  there is an entry \<^verbatim>\<open>"_origin"\<close> that the decoder rejects. The result is an error, never
  a command with a default in the place of the bad entry: a \<open>KeyError\<close> for a missing
  key, an \<open>AttributeError\<close> for a value without \<^verbatim>\<open>items\<close>, the decoder's own error for
  the origin. All three are \<open>MalformedData\<close> in the words of the specification.
\<close>

theorem malformed_data_fails:
  assumes "(\<nexists>r. map_of data ''_reads'' = Some (PDict r)) \<or>
           (\<nexists>w. map_of data ''_writes'' = Some (PDict w)) \<or>
           (flag = STORE \<and> (\<exists>s. map_of data ''_origin'' = Some s \<and> from_encoded_str s = None))"
  shows "\<exists>e. from_json_data_dict from_encoded_str data flag = Inl e \<and>
           e \<in> {KeyError ''_reads'', KeyError ''_writes'', AttributeError, AddressDecodeError} \<and>
           kind_of e = MalformedData"
proof (cases "\<exists>r. map_of data ''_reads'' = Some (PDict r)")
  case False
  then show ?thesis by (simp add: from_json_data_dict_bad_reads)
next
  case True
  then obtain r where r: "map_of data ''_reads'' = Some (PDict r)" ..
  show ?thesis
  proof (cases "\<exists>w. map_of data ''_writes'' = Some (PDict w)")
    case False
    then show ?thesis by (simp add: from_json_data_dict_bad_writes [OF r])
  next
    case True
    then obtain w where w: "map_of data ''_writes'' = Some (PDict w)" ..
    from assms r w obtain s where "flag = STORE" "map_of data ''_origin'' = Some s"
      "from_encoded_str s = None"
      by auto
    then show ?thesis by (simp add: from_json_data_dict_maps [OF r w])
  qed
qed

theorem malformed_data_fails_witness:
  "from_json_data_dict example_from_encoded_str [(''_writes'', PDict [])] NET =
     Inl (KeyError ''_reads'') \<and>
   from_json_data_dict example_from_encoded_str
     [(''_reads'', PDict [(''obj1'', 5)]), (''_writes'', PList [1])] NET = Inl AttributeError \<and>
   from_json_data_dict example_from_encoded_str
     [(''_reads'', PDict [(''obj1'', 5)]), (''_writes'', PDict [(''obj2'', 1)]),
      (''_origin'', PStr [])] STORE = Inl AddressDecodeError"
proof -
  let ?d1 = "[(''_writes'', PDict [])] :: (string, int pyval) dict"
  let ?d2 = "[(''_reads'', PDict [(''obj1'', 5)]), (''_writes'', PList [1])] ::
    (string, int pyval) dict"
  let ?d3 = "[(''_reads'', PDict [(''obj1'', 5)]), (''_writes'', PDict [(''obj2'', 1)]),
      (''_origin'', PStr [])] :: (string, int pyval) dict"
  have h1: "(\<nexists>r. map_of ?d1 ''_reads'' = Some (PDict r)) \<or>
           (\<nexists>w. map_of ?d1 ''_writes'' = Some (PDict w)) \<or>
           (NET = STORE \<and>
            (\<exists>s. map_of ?d1 ''_origin'' = Some s \<and> example_from_encoded_str s = None))"
    by simp
  have h2: "(\<nexists>r. map_of ?d2 ''_reads'' = Some (PDict r)) \<or>
           (\<nexists>w. map_of ?d2 ''_writes'' = Some (PDict w)) \<or>
           (NET = STORE \<and>
            (\<exists>s. map_of ?d2 ''_origin'' = Some s \<and> example_from_encoded_str s = None))"
    by simp
  have h3: "(\<nexists>r. map_of ?d3 ''_reads'' = Some (PDict r)) \<or>
           (\<nexists>w. map_of ?d3 ''_writes'' = Some (PDict w)) \<or>
           (STORE = STORE \<and>
            (\<exists>s. map_of ?d3 ''_origin'' = Some s \<and> example_from_encoded_str s = None))"
    by simp
  have e1: "from_json_data_dict example_from_encoded_str ?d1 NET = Inl (KeyError ''_reads'')"
    using malformed_data_fails [OF h1]
    by (simp add: from_json_data_dict_def dict_getitem_def)
  have e2: "from_json_data_dict example_from_encoded_str ?d2 NET = Inl AttributeError"
    using malformed_data_fails [OF h2]
    by (simp add: from_json_data_dict_def dict_getitem_def)
  have e3: "from_json_data_dict example_from_encoded_str ?d3 STORE = Inl AddressDecodeError"
    using malformed_data_fails [OF h3]
    by (simp add: from_json_data_dict_def dict_getitem_def dict_contains_def)
  from e1 e2 e3 show ?thesis by simp
qed

section \<open>The abstract method\<close>

text \<open>
  Claim C6, as amended. \<^verbatim>\<open>get_object\<close> of the base class fails for every command, every
  version and every collection of dependencies, whether the command creates the version
  or not, and the error is the \<open>NotImplemented\<close> of the specification: the method is left
  to the concrete commands and does not look at the version.
\<close>

theorem get_object_not_implemented:
  "get_object c v deps = Inl NotImplementedError \<and> kind_of NotImplementedError = NotImplemented"
  by (simp add: get_object_def)

text \<open>
  Claim C6, as stated, says that a version outside \<^verbatim>\<open>get_new_object_versions\<close> makes
  \<^verbatim>\<open>get_object\<close> fail with \<open>UnknownVersion\<close>. The example command creates version 1
  only; asked for version 7 the method raises \<open>NotImplementedError\<close>, which is not of
  that kind.
\<close>

theorem get_object_unknown_version_counterexample:
  "7 \<notin> get_new_object_versions example_command \<and>
   (get_object example_command 7 ([] :: unit list) :: error + unit) = Inl NotImplementedError \<and>
   kind_of NotImplementedError \<noteq> UnknownVersion"
  by (simp add: get_object_def get_new_object_versions_def example_command_def)

section \<open>Serialisation leaves the command alone\<close>

text \<open>
  With calls that change nothing and read nothing outside their arguments, the method
  with effects is \<open>get_json_data_dict\<close> and leaves the outside state as it is.
\<close>

lemma get_json_data_dict_effects_pure:
  "get_json_data_dict_effects (\<lambda>a w. ((as_str a, a), w)) (\<lambda>c d w. ((add_object_type c d, c), w))
     flag c w = (get_json_data_dict as_str add_object_type flag c, w)"
proof (cases "origin c")
  case None
  then show ?thesis
    by (simp add: get_json_data_dict_effects_def get_json_data_dict_def Let_def)
next
  case (Some a)
  then have same: "c\<lparr>origin := Some a\<rparr> = c" by simp
  from Some show ?thesis
    by (simp add: get_json_data_dict_effects_def get_json_data_dict_def Let_def same)
qed

lemma get_json_data_dict_effects_result:
  assumes address_kept: "\<And>a w. origin c = Some a \<Longrightarrow> snd (fst (as_str a w)) = a"
    and command_kept: "\<And>d w. snd (fst (add_object_type c d w)) = c"
  shows "fst (get_json_data_dict_effects as_str add_object_type flag c w) =
     (fst (fst (add_object_type c
        (let data_dict =
            [(''_reads'', PDict (dict_of_pairs (reads_version_map c))),
             (''_writes'', PDict (dict_of_pairs (writes_version_map c)))]
         in if flag = STORE then
              (case origin c of
                 None \<Rightarrow> data_dict
               | Some a \<Rightarrow> dict_update data_dict [(''_origin'', PStr (fst (fst (as_str a w))))])
            else data_dict)
        (if flag = STORE then
              (case origin c of None \<Rightarrow> w | Some a \<Rightarrow> snd (as_str a w))
         else w))), c)"
proof (cases "flag = STORE \<and> origin c \<noteq> None")
  case False
  then show ?thesis
    using command_kept
    by (auto simp: get_json_data_dict_effects_def Let_def prod_eq_iff split: option.splits)
next
  case True
  then obtain a where a: "origin c = Some a" and f: "flag = STORE" by auto
  obtain s a' w' where r: "as_str a w = ((s, a'), w')" by (metis surj_pair)
  with address_kept [OF a, of w] have a': "a' = a" by simp
  from a have same: "c\<lparr>origin := Some a\<rparr> = c" by simp
  show ?thesis
    using command_kept
    by (simp add: get_json_data_dict_effects_def Let_def a f r a' same prod_eq_iff)
qed

text \<open>
  Claim C8. \<^verbatim>\<open>get_json_data_dict\<close> leaves the command as it got it, in either mode, and a
  second call, made on the command and in the outside state that the first call left,
  returns the same mapping and again leaves the command as it is. The method makes two
  calls into other modules, and what they do is a hypothesis: \<open>as_str\<close> leaves the
  address as it is and its encoding does not depend on the state outside;
  \<open>add_object_type\<close> leaves the command as it is and the dictionary it produces does not
  depend on the state outside. Either call may still change the outside state.
\<close>

theorem get_json_data_dict_no_side_effect:
  assumes address_kept: "\<And>a w. origin c = Some a \<Longrightarrow> snd (fst (as_str a w)) = a"
    and encoding_fixed: "\<And>a w w'. origin c = Some a \<Longrightarrow>
        fst (fst (as_str a w)) = fst (fst (as_str a w'))"
    and command_kept: "\<And>d w. snd (fst (add_object_type c d w)) = c"
    and mapping_fixed: "\<And>d w w'.
        fst (fst (add_object_type c d w)) = fst (fst (add_object_type c d w'))"
  shows "snd (fst (get_json_data_dict_effects as_str add_object_type flag c w)) = c \<and>
         fst (fst (get_json_data_dict_effects as_str add_object_type flag
            (snd (fst (get_json_data_dict_effects as_str add_object_type flag c w)))
            (snd (get_json_data_dict_effects as_str add_object_type flag c w)))) =
         fst (fst (get_json_data_dict_effects as_str add_object_type flag c w)) \<and>
         snd (fst (get_json_data_dict_effects as_str add_object_type flag
            (snd (fst (get_json_data_dict_effects as_str add_object_type flag c w)))
            (snd (get_json_data_dict_effects as_str add_object_type flag c w)))) = c"
proof -
  let ?call = "get_json_data_dict_effects as_str add_object_type flag c"
  note result = get_json_data_dict_effects_result [where c = c and as_str = as_str
      and add_object_type = add_object_type and flag = flag, OF address_kept command_kept]
  have unchanged: "\<And>w. snd (fst (?call w)) = c"
    by (simp add: result)
  let ?dict = "\<lambda>w. let data_dict =
            [(''_reads'', PDict (dict_of_pairs (reads_version_map c))),
             (''_writes'', PDict (dict_of_pairs (writes_version_map c)))]
         in if flag = STORE then
              (case origin c of
                 None \<Rightarrow> data_dict
               | Some a \<Rightarrow> dict_update data_dict [(''_origin'', PStr (fst (fst (as_str a w))))])
            else data_dict"
  let ?world = "\<lambda>w. if flag = STORE then
              (case origin c of None \<Rightarrow> w | Some a \<Rightarrow> snd (as_str a w))
         else w"
  have mapping: "\<And>w. fst (fst (?call w)) = fst (fst (add_object_type c (?dict w) (?world w)))"
    by (simp add: result)
  have same: "\<And>w w'. fst (fst (?call w)) = fst (fst (?call w'))"
  proof -
    fix w w'
    have dict: "?dict w = ?dict w'"
      using encoding_fixed [of _ w w'] by (simp add: Let_def split: option.splits)
    have "fst (fst (?call w)) = fst (fst (add_object_type c (?dict w) (?world w)))"
      by (rule mapping)
    also have "\<dots> = fst (fst (add_object_type c (?dict w) (?world w')))"
      by (rule mapping_fixed)
    also have "\<dots> = fst (fst (add_object_type c (?dict w') (?world w')))"
      by (simp only: dict)
    also have "\<dots> = fst (fst (?call w'))"
      by (rule mapping [symmetric])
    finally show "fst (fst (?call w)) = fst (fst (?call w'))" .
  qed
  from unchanged [of w] unchanged [of "snd (?call w)"] same [of "snd (?call w)" w]
  show ?thesis by simp
qed

theorem get_json_data_dict_no_side_effect_witness:
  "get_json_data_dict_effects example_as_str_counting example_add_object_type_counting STORE
     example_command 0 =
   (([(''_reads'', PDict [(''obj1'', 5)]), (''_writes'', PDict [(''obj2'', 1)]),
      (''_origin'', PStr ''A''), (''_ObjectType'', PStr ''ProtocolCommand'')],
     example_command), 2) \<and>
   get_json_data_dict_effects example_as_str_counting example_add_object_type_counting STORE
     example_command 2 =
   (([(''_reads'', PDict [(''obj1'', 5)]), (''_writes'', PDict [(''obj2'', 1)]),
      (''_origin'', PStr ''A''), (''_ObjectType'', PStr ''ProtocolCommand'')],
     example_command), 4)"
proof -
  let ?call = "get_json_data_dict_effects example_as_str_counting
    example_add_object_type_counting STORE example_command"
  have h1: "\<And>a w. origin example_command = Some a \<Longrightarrow>
      snd (fst (example_as_str_counting a w)) = a"
    by (simp add: example_as_str_counting_def)
  have h2: "\<And>a w w'. origin example_command = Some a \<Longrightarrow>
      fst (fst (example_as_str_counting a w)) = fst (fst (example_as_str_counting a w'))"
    by (simp add: example_as_str_counting_def)
  have h3: "\<And>d w. snd (fst (example_add_object_type_counting example_command d w)) =
      example_command"
    by (simp add: example_add_object_type_counting_def)
  have h4: "\<And>d w w'. fst (fst (example_add_object_type_counting example_command d w)) =
      fst (fst (example_add_object_type_counting example_command d w'))"
    by (simp add: example_add_object_type_counting_def)
  have first: "?call 0 =
   (([(''_reads'', PDict [(''obj1'', 5)]), (''_writes'', PDict [(''obj2'', 1)]),
      (''_origin'', PStr ''A''), (''_ObjectType'', PStr ''ProtocolCommand'')],
     example_command), 2)"
    by (simp add: get_json_data_dict_effects_def example_as_str_counting_def
        example_add_object_type_counting_def example_command_def dict_of_pairs_def
        dict_update_def)
  have world: "snd (?call 2) = 4"
    by (simp add: get_json_data_dict_effects_def example_as_str_counting_def
        example_add_object_type_counting_def example_command_def dict_of_pairs_def
        dict_update_def)
  from get_json_data_dict_no_side_effect [where c = example_command
      and as_str = example_as_str_counting
      and add_object_type = example_add_object_type_counting and flag = STORE and w = 0,
      OF h1 h2 h3 h4]
  have "fst (fst (?call 2)) = fst (fst (?call 0)) \<and> snd (fst (?call 2)) = example_command"
    by (simp add: first)
  with first world show ?thesis by (simp add: prod_eq_iff)
qed

section \<open>Duplicate object ids\<close>

lemma dict_of_pairs_last_wins:
  assumes "pairs = xs @ (k, v1) # ys @ (k, v2) # zs" and "k \<notin> fst ` set zs"
  shows "map_of (dict_of_pairs pairs) k = Some v2"
proof -
  from assms(2) have "map_of (rev zs) k = None"
    by (simp add: map_of_eq_None_iff)
  with assms(1) show ?thesis
    by (simp add: map_of_dict_of_pairs map_add_def)
qed

lemma dict_of_pairs_duplicate:
  assumes p: "pairs = xs @ (k, v1) # ys @ (k, v2) # zs" and z: "k \<notin> fst ` set zs"
  shows "filter (\<lambda>p. fst p = k) (dict_of_pairs pairs) = [(k, v2)] \<and>
     length (dict_of_pairs pairs) < length pairs"
proof -
  from p have "\<not> distinct (map fst pairs)" by simp
  then have "length (dict_of_pairs pairs) < length pairs"
    by (rule length_dict_of_pairs_less)
  moreover from dict_of_pairs_last_wins [OF p z]
  have "filter (\<lambda>p. fst p = k) (dict_of_pairs pairs) = [(k, v2)]"
    by (rule dict_of_pairs_entries)
  ultimately show ?thesis by simp
qed

text \<open>
  Claim C9. When the reads hold two entries for one object id \<open>k\<close>, the later one being
  the last entry for \<open>k\<close>, the map under \<^verbatim>\<open>"_reads"\<close> is \<^verbatim>\<open>dict\<close> of the reads: it has one
  entry for \<open>k\<close>, with the version of the later entry, and fewer entries than the reads.
  The same holds for the writes and \<^verbatim>\<open>"_writes"\<close>. The method has no error result: it
  returns this mapping and rejects nothing. The hypothesis is the contract of
  \<open>add_object_type\<close> for the two keys.
\<close>

theorem duplicate_object_id_last_wins:
  assumes keep: "\<And>d k. k \<in> {''_reads'', ''_writes''} \<Longrightarrow>
      map_of (add_object_type c d) k = map_of d k"
  shows "(reads_version_map c = xs @ (k, v1) # ys @ (k, v2) # zs \<and> k \<notin> fst ` set zs \<longrightarrow>
            map_of (fst (get_json_data_dict as_str add_object_type flag c)) ''_reads'' =
              Some (PDict (dict_of_pairs (reads_version_map c))) \<and>
            filter (\<lambda>p. fst p = k) (dict_of_pairs (reads_version_map c)) = [(k, v2)] \<and>
            length (dict_of_pairs (reads_version_map c)) < length (reads_version_map c)) \<and>
         (writes_version_map c = xs @ (k, v1) # ys @ (k, v2) # zs \<and> k \<notin> fst ` set zs \<longrightarrow>
            map_of (fst (get_json_data_dict as_str add_object_type flag c)) ''_writes'' =
              Some (PDict (dict_of_pairs (writes_version_map c))) \<and>
            filter (\<lambda>p. fst p = k) (dict_of_pairs (writes_version_map c)) = [(k, v2)] \<and>
            length (dict_of_pairs (writes_version_map c)) < length (writes_version_map c))"
proof -
  have r: "map_of (fst (get_json_data_dict as_str add_object_type flag c)) ''_reads'' =
      Some (PDict (dict_of_pairs (reads_version_map c)))"
    by (rule get_json_data_dict_reads) (simp add: keep)
  have w: "map_of (fst (get_json_data_dict as_str add_object_type flag c)) ''_writes'' =
      Some (PDict (dict_of_pairs (writes_version_map c)))"
    by (rule get_json_data_dict_writes) (simp add: keep)
  from r w dict_of_pairs_duplicate [of "reads_version_map c" xs k v1 ys v2 zs]
    dict_of_pairs_duplicate [of "writes_version_map c" xs k v1 ys v2 zs]
  show ?thesis by blast
qed

theorem duplicate_object_id_last_wins_witness:
  "map_of (fst (get_json_data_dict example_as_str example_add_object_type NET
      (example_command\<lparr>reads_version_map := [(''a'', 1), (''b'', 2), (''a'', 3)]\<rparr>))) ''_reads'' =
   Some (PDict [(''a'', 3), (''b'', 2)])"
proof -
  let ?c = "example_command\<lparr>reads_version_map := [(''a'', 1), (''b'', 2), (''a'', 3)]\<rparr>"
  have keep: "\<And>d k. k \<in> {''_reads'', ''_writes''} \<Longrightarrow>
      map_of (example_add_object_type ?c d) k = map_of d k"
    by (auto simp: example_add_object_type_keeps)
  have shape: "reads_version_map ?c = [] @ (''a'', 1) # [(''b'', 2)] @ (''a'', 3) # [] \<and>
      ''a'' \<notin> fst ` set ([] :: (string \<times> int) list)"
    by simp
  have d: "dict_of_pairs [(''a'', 1::int), (''b'', 2), (''a'', 3)] = [(''a'', 3), (''b'', 2)]"
    by (simp add: dict_of_pairs_def dict_update_def)
  from duplicate_object_id_last_wins [where c = ?c and add_object_type = example_add_object_type
      and xs = "[]" and k = "''a''" and ?v1.0 = 1 and ys = "[(''b'', 2)]" and ?v2.0 = 3
      and zs = "[]" and as_str = example_as_str and flag = NET, OF keep] shape
  show ?thesis by (simp add: d)
qed

end
